theory Spec2Isabelle
  imports Main
begin

section \<open>Strings\<close>

text \<open>
  Python strings are modelled as \<open>string\<close> (a list of \<open>char\<close>). A \<open>char\<close> stands for one
  code point below 256 (the Latin-1 range); the predicates below are Python's
  \<open>str.isspace\<close>, the regular expression classes \<open>\s\<close> and \<open>\d\<close>, and \<open>str.lower\<close>,
  restricted to that range.
\<close>

definition is_space :: "char \<Rightarrow> bool" where
  "is_space c = (c \<in> {CHR '' '', CHR 0x09, CHR 0x0A, CHR 0x0B, CHR 0x0C, CHR 0x0D,
     CHR 0x1C, CHR 0x1D, CHR 0x1E, CHR 0x1F, CHR 0x85, CHR 0xA0})"

definition is_digit :: "char \<Rightarrow> bool" where
  "is_digit c = (c \<in> set ''0123456789'')"

definition lower_char :: "char \<Rightarrow> char" where
  "lower_char c = (let n = (of_char c :: nat) in
     if (65 \<le> n \<and> n \<le> 90) \<or> (192 \<le> n \<and> n \<le> 222 \<and> n \<noteq> 215)
     then char_of (n + 32) else c)"

text \<open>\<open>s.lower()\<close>\<close>

definition str_lower :: "string \<Rightarrow> string" where
  "str_lower s = map lower_char s"

text \<open>\<open>s.strip(chars)\<close>: characters of \<open>chars\<close> are removed from both ends.\<close>

definition strip_chars :: "(char \<Rightarrow> bool) \<Rightarrow> string \<Rightarrow> string" where
  "strip_chars p s = rev (dropWhile p (rev (dropWhile p s)))"

text \<open>\<open>s.strip()\<close>\<close>

definition str_strip :: "string \<Rightarrow> string" where
  "str_strip s = strip_chars is_space s"

text \<open>\<open>s.strip(' -')\<close>\<close>

definition is_sep_char :: "char \<Rightarrow> bool" where
  "is_sep_char c = (c = CHR '' '' \<or> c = CHR ''-'')"

definition strip_sep :: "string \<Rightarrow> string" where
  "strip_sep s = strip_chars is_sep_char s"

text \<open>\<open>s.startswith(p)\<close>\<close>

fun starts_with :: "string \<Rightarrow> string \<Rightarrow> bool" where
  "starts_with [] s = True"
| "starts_with (p # ps) [] = False"
| "starts_with (p # ps) (c # cs) = (p = c \<and> starts_with ps cs)"

text \<open>\<open>sub in s\<close>: the substring test.\<close>

fun str_in :: "string \<Rightarrow> string \<Rightarrow> bool" where
  "str_in sub [] = starts_with sub []"
| "str_in sub (c # cs) = (starts_with sub (c # cs) \<or> str_in sub cs)"

text \<open>
  The first occurrence of \<open>sep\<close> in \<open>s\<close>: the text before it and the text after it.
\<close>

fun find_sub :: "string \<Rightarrow> string \<Rightarrow> (string \<times> string) option" where
  "find_sub sep [] = (if sep = [] then Some ([], []) else None)"
| "find_sub sep (c # cs) =
     (if starts_with sep (c # cs) then Some ([], drop (length sep) (c # cs))
      else map_option (\<lambda>(b, a). (c # b, a)) (find_sub sep cs))"

lemma find_sub_length:
  "find_sub sep s = Some (b, a) \<Longrightarrow> length b + length sep + length a = length s"
proof (induction s arbitrary: b)
  case Nil
  then show ?case by (simp split: if_splits)
next
  case (Cons c cs)
  have sw: "\<And>p t. starts_with p t \<Longrightarrow> length p \<le> length t"
  proof -
    fix p t show "starts_with p t \<Longrightarrow> length p \<le> length t"
      by (induction p t rule: starts_with.induct) auto
  qed
  show ?case
  proof (cases "starts_with sep (c # cs)")
    case True
    with Cons.prems sw [OF True] show ?thesis by auto
  next
    case False
    with Cons.prems obtain b' where "find_sub sep cs = Some (b', a)" and "b = c # b'"
      by auto
    with Cons.IH show ?thesis by auto
  qed
qed

text \<open>
  \<open>s.split(sep)\<close>: the pieces between the occurrences of \<open>sep\<close>, found from the left and
  not overlapping. Python raises \<open>ValueError\<close> on an empty separator; both callers pass a
  separator that is not empty (a matched price, the literal \<open>' - '\<close>), and the first
  branch only keeps the function total.
\<close>

function split_str :: "string \<Rightarrow> string \<Rightarrow> string list" where
  "split_str sep s =
     (if sep = [] then [s]
      else case find_sub sep s of
             None \<Rightarrow> [s]
           | Some (b, a) \<Rightarrow> b # split_str sep a)"
  by pat_completeness auto
termination
proof (relation "measure (\<lambda>(sep, s). length s)")
  show "wf (measure (\<lambda>(sep, s). length s))" by simp
next
  fix sep s :: string and x2 :: "string \<times> string" and b a :: string
  assume "sep \<noteq> []" and "find_sub sep s = Some x2" and "(b, a) = x2"
  then have "length b + length sep + length a = length s"
    using find_sub_length [of sep s b a] by simp
  with \<open>sep \<noteq> []\<close> show "((sep, a), (sep, s)) \<in> measure (\<lambda>(sep, s). length s)"
    by (cases sep) auto
qed

text \<open>\<open>sep.join(parts)\<close>\<close>

fun join_str :: "string \<Rightarrow> string list \<Rightarrow> string" where
  "join_str sep [] = []"
| "join_str sep [x] = x"
| "join_str sep (x # y # ys) = x @ sep @ join_str sep (y # ys)"

section \<open>The price pattern\<close>

text \<open>
  The optional group \<open>(?:\.\d+)?\<close> at the start of \<open>r\<close>: what it matches (nothing
  unless a dot and at least one digit are there; the digits are taken greedily) and the
  rest.
\<close>

definition match_fraction :: "string \<Rightarrow> string \<times> string" where
  "match_fraction r =
     (case r of
        [] \<Rightarrow> ([], r)
      | d # r2 \<Rightarrow>
          if d = CHR ''.'' \<and> takeWhile is_digit r2 \<noteq> []
          then (d # takeWhile is_digit r2, dropWhile is_digit r2)
          else ([], r))"

text \<open>
  The regular expression \<open>\$\d+(?:\.\d+)?\<close> anchored at the start of \<open>s\<close>: the matched
  text and the rest. \<open>\d+\<close> is greedy; nothing after the optional group can make the
  matcher give digits back.
\<close>

definition match_price_at :: "string \<Rightarrow> (string \<times> string) option" where
  "match_price_at s =
     (case s of
        [] \<Rightarrow> None
      | c # r \<Rightarrow>
          if c = CHR ''$'' \<and> takeWhile is_digit r \<noteq> []
          then (case match_fraction (dropWhile is_digit r) of
                  (fs, rest) \<Rightarrow> Some (c # takeWhile is_digit r @ fs, rest))
          else None)"

text \<open>
  \<open>re.search(r'\$\d+(?:\.\d+)?', text)\<close>: the leftmost match, as the text before it,
  \<open>group(0)\<close> and the text from \<open>end()\<close> on.
\<close>

fun search_price :: "string \<Rightarrow> (string \<times> string \<times> string) option" where
  "search_price [] = None"
| "search_price (c # cs) =
     (case match_price_at (c # cs) of
        Some (tok, rest) \<Rightarrow> Some ([], tok, rest)
      | None \<Rightarrow> map_option (\<lambda>(b, tok, a). (c # b, tok, a)) (search_price cs))"

lemma match_fraction_split: "match_fraction r = (fs, rest) \<Longrightarrow> r = fs @ rest"
  by (cases r) (auto simp: match_fraction_def split: if_splits)

lemma match_price_at_split:
  assumes m: "match_price_at s = Some (tok, rest)"
  shows "s = tok @ rest \<and> tok \<noteq> []"
proof (cases s)
  case Nil
  with m show ?thesis by (simp add: match_price_at_def)
next
  case (Cons c r)
  obtain fs rest' where f: "match_fraction (dropWhile is_digit r) = (fs, rest')"
    by (cases "match_fraction (dropWhile is_digit r)")
  from m Cons f have tok: "tok = c # takeWhile is_digit r @ fs" and rest: "rest = rest'"
    by (auto simp: match_price_at_def split: if_splits)
  have "r = takeWhile is_digit r @ dropWhile is_digit r" by simp
  also have "dropWhile is_digit r = fs @ rest'" using f by (rule match_fraction_split)
  finally show ?thesis using tok rest Cons by simp
qed

lemma match_price_at_length:
  "match_price_at s = Some (tok, rest) \<Longrightarrow> length rest < length s"
  using match_price_at_split [of s tok rest] by (cases tok) auto

text \<open>\<open>re.sub(r'\$\d+(?:\.\d+)?', '', s)\<close>: every match is removed, from the left.\<close>

function sub_price :: "string \<Rightarrow> string" where
  "sub_price [] = []"
| "sub_price (c # cs) =
     (case match_price_at (c # cs) of
        Some (tok, rest) \<Rightarrow> sub_price rest
      | None \<Rightarrow> c # sub_price cs)"
  by pat_completeness auto
termination
proof (relation "measure length")
  show "wf (measure length)" by simp
next
  fix c :: char and cs :: string and x2 :: "string \<times> string" and tok rest :: string
  assume "match_price_at (c # cs) = Some x2" and "(tok, rest) = x2"
  then show "(rest, c # cs) \<in> measure length"
    using match_price_at_length [of "c # cs" tok rest] by simp
next
  fix c :: char and cs :: string
  assume "match_price_at (c # cs) = None"
  show "(cs, c # cs) \<in> measure length" by simp
qed

text \<open>
  \<open>re.search(r'^(.*?)\s*\$', text)\<close>, as \<open>group(1)\<close>. The lazy group grows one character
  at a time; at each length the greedy \<open>\s*\<close> must be followed by a dollar sign; the dot
  does not match a newline, and \<open>^\<close> only matches at the start of the text.
\<close>

fun name_match :: "string \<Rightarrow> string option" where
  "name_match s =
     (if starts_with ''$'' (dropWhile is_space s) then Some []
      else case s of
             [] \<Rightarrow> None
           | c # cs \<Rightarrow> if c = CHR 0x0A then None else map_option ((#) c) (name_match cs))"

section \<open>Records\<close>

text \<open>A menu item is the dictionary with the keys \<open>name\<close>, \<open>price\<close> and \<open>description\<close>.\<close>

record menu_item =
  name :: string
  price :: string
  description :: string

section \<open>Parsing a menu item from a string\<close>

text \<open>
  \<open>parse_menu_text(text)\<close>. \<open>None\<close> is Python's \<open>None\<close>. The name is whatever the name
  pattern captured, stripped; nothing checks that it is not empty.
\<close>

definition parse_menu_text :: "string \<Rightarrow> menu_item option" where
  "parse_menu_text text =
     (case search_price text of
        None \<Rightarrow> None
      | Some (before, price_match, after) \<Rightarrow>
          (case name_match text of
             Some g \<Rightarrow>
               Some \<lparr>name = str_strip g, price = price_match,
                     description = (if after \<noteq> [] then str_strip after else [])\<rparr>
           | None \<Rightarrow> None))"

text \<open>
  \<open>parse_spenard_menu_item(text)\<close>, in the three steps of the source. The first step
  (source lines 229 to 248) finds the price and splits the stripped text at it:
  \<open>parts[0]\<close> is \<open>hd parts\<close> and \<open>parts[1]\<close> is \<open>parts ! 1\<close>, read under the source's own
  length test; \<open>split\<close> never returns an empty list (lemma \<open>split_str_not_Nil\<close>).
\<close>

definition spenard_fields :: "string \<Rightarrow> (string \<times> string \<times> string) option" where
  "spenard_fields text =
     (case search_price text of
        None \<Rightarrow> None
      | Some (before, price_match, after) \<Rightarrow>
          let item_text = str_strip text;
              parts = split_str price_match item_text;
              name0 = strip_sep (hd parts);
              description0 = (if length parts > 1 then strip_sep (parts ! 1) else [])
          in Some (price_match, name0, description0))"

text \<open>
  The second step (source lines 250 to 256): a name with \<open>' - '\<close> in it is split again
  when there is no description.
\<close>

definition resplit_name :: "string \<Rightarrow> string \<Rightarrow> string \<times> string" where
  "resplit_name name0 description0 =
     (if description0 = [] \<and> str_in '' - '' name0
      then let name_parts = split_str '' - '' name0
           in (str_strip (hd name_parts),
               if length name_parts > 1
               then str_strip (join_str '' - '' (tl name_parts))
               else description0)
      else (name0, description0))"

text \<open>The third step (source lines 258 to 270): the clean-up and the test on the name.\<close>

definition parse_spenard_menu_item :: "string \<Rightarrow> menu_item option" where
  "parse_spenard_menu_item text =
     (case spenard_fields text of
        None \<Rightarrow> None
      | Some (price_match, name0, description0) \<Rightarrow>
          (case resplit_name name0 description0 of
             (name1, description1) \<Rightarrow>
               let name2 = str_strip name1;
                   description2 = str_strip description1
               in if name2 = [] then None
                  else Some \<lparr>name = name2, price = price_match,
                             description = description2\<rparr>))"

section \<open>The parsed document\<close>

text \<open>
  The tree the HTML parser builds: a text node; a string of another kind (a comment, a
  declaration, the text of a \<open>script\<close> or \<open>style\<close> element), which a search for strings
  returns and \<open>get_text()\<close> leaves out; or an element with its tag name, its \<open>class\<close>
  attribute (\<open>None\<close> when the element has none, else the list of its tokens) and its
  children. The document itself is an element (the parser's root object), and every
  search below runs over the descendants of the node it is called on, in document order.
\<close>

datatype node = Text string | Special string | Elem string "string list option" "node list"

fun self_and_descendants :: "node \<Rightarrow> node list" where
  "self_and_descendants (Text s) = [Text s]"
| "self_and_descendants (Special s) = [Special s]"
| "self_and_descendants (Elem t c ch) = Elem t c ch # concat (map self_and_descendants ch)"

definition descendants :: "node \<Rightarrow> node list" where
  "descendants n =
     (case n of
        Text s \<Rightarrow> []
      | Special s \<Rightarrow> []
      | Elem t c ch \<Rightarrow> concat (map self_and_descendants ch))"

text \<open>The element's tag name is one of \<open>names\<close>.\<close>

definition tag_in :: "string list \<Rightarrow> node \<Rightarrow> bool" where
  "tag_in names n =
     (case n of Text s \<Rightarrow> False | Special s \<Rightarrow> False | Elem t c ch \<Rightarrow> t \<in> set names)"

text \<open>
  A \<open>class_\<close> filter given as a function \<open>f\<close>: the parser library calls \<open>f\<close> on every
  token of the \<open>class\<close> attribute, then on the tokens joined by a space, and on \<open>None\<close>
  when the attribute is absent (the functions below answer \<open>None\<close>, that is no, there).
\<close>

definition class_matches :: "(string \<Rightarrow> bool) \<Rightarrow> node \<Rightarrow> bool" where
  "class_matches f n =
     (case n of
        Text s \<Rightarrow> False
      | Special s \<Rightarrow> False
      | Elem t c ch \<Rightarrow>
          (case c of
             None \<Rightarrow> False
           | Some toks \<Rightarrow> list_ex f toks \<or> f (join_str '' '' toks)))"

text \<open>\<open>find_all(tag, class_=f)\<close>\<close>

definition find_all_class :: "string \<Rightarrow> (string \<Rightarrow> bool) \<Rightarrow> node \<Rightarrow> node list" where
  "find_all_class tag f n =
     filter (\<lambda>e. tag_in [tag] e \<and> class_matches f e) (descendants n)"

text \<open>\<open>find_all([tag, ...])\<close>\<close>

definition find_all_tags :: "string list \<Rightarrow> node \<Rightarrow> node list" where
  "find_all_tags names n = filter (tag_in names) (descendants n)"

text \<open>\<open>find_all(string=True)\<close>: the strings of every kind, in document order.\<close>

fun texts_of :: "node list \<Rightarrow> string list" where
  "texts_of [] = []"
| "texts_of (Text s # ns) = s # texts_of ns"
| "texts_of (Special s # ns) = s # texts_of ns"
| "texts_of (Elem t c ch # ns) = texts_of ns"

definition find_all_strings :: "node \<Rightarrow> string list" where
  "find_all_strings n = texts_of (descendants n)"

text \<open>
  \<open>get_text()\<close>: the text nodes below the element, joined without a separator; the
  strings of another kind are left out. (The program calls it on \<open>div\<close>, \<open>section\<close>,
  \<open>span\<close>, \<open>p\<close>, heading, \<open>strong\<close> and \<open>b\<close> elements only.)
\<close>

fun plain_texts_of :: "node list \<Rightarrow> string list" where
  "plain_texts_of [] = []"
| "plain_texts_of (Text s # ns) = s # plain_texts_of ns"
| "plain_texts_of (Special s # ns) = plain_texts_of ns"
| "plain_texts_of (Elem t c ch # ns) = plain_texts_of ns"

definition get_text :: "node \<Rightarrow> string" where
  "get_text n = concat (plain_texts_of (descendants n))"

section \<open>Extraction from an element\<close>

text \<open>\<open>extract_name(item)\<close>; the loop over the text nodes is \<open>first_nonempty_text\<close>.\<close>

fun first_nonempty_text :: "string list \<Rightarrow> string option" where
  "first_nonempty_text [] = None"
| "first_nonempty_text (t # ts) =
     (if length (str_strip t) > 0 then Some (str_strip t) else first_nonempty_text ts)"

definition heading_tags :: "string list" where
  "heading_tags = [''h1'', ''h2'', ''h3'', ''h4'', ''h5'', ''h6'', ''strong'', ''b'']"

definition extract_name :: "node \<Rightarrow> string option" where
  "extract_name item =
     (case find_all_tags heading_tags item of
        name_element # others \<Rightarrow> Some (str_strip (get_text name_element))
      | [] \<Rightarrow> first_nonempty_text (find_all_strings item))"

text \<open>\<open>extract_price(item)\<close>; the loop over the text nodes is \<open>first_price\<close>.\<close>

fun first_price :: "string list \<Rightarrow> string option" where
  "first_price [] = None"
| "first_price (t # ts) =
     (if str_in ''$'' t
      then (case search_price t of
              Some (before, price_match, after) \<Rightarrow> Some price_match
            | None \<Rightarrow> first_price ts)
      else first_price ts)"

definition extract_price :: "node \<Rightarrow> string option" where
  "extract_price item = first_price (find_all_strings item)"

text \<open>\<open>extract_description(item)\<close>\<close>

definition extract_description :: "node \<Rightarrow> string" where
  "extract_description item =
     (let text_content = str_strip (get_text item);
          description = str_strip (sub_price text_content)
      in case extract_name item of
           Some n \<Rightarrow> if n \<noteq> [] \<and> str_lower description = str_lower n then [] else description
         | None \<Rightarrow> description)"

section \<open>The generic extraction\<close>

text \<open>The functions given as \<open>class_\<close> filters; \<open>x and ...\<close> is false on the empty string.\<close>

definition menu_or_item :: "string \<Rightarrow> bool" where
  "menu_or_item x = (x \<noteq> [] \<and> (str_in ''menu'' (str_lower x) \<or> str_in ''item'' (str_lower x)))"

definition dish_or_food :: "string \<Rightarrow> bool" where
  "dish_or_food x = (x \<noteq> [] \<and> (str_in ''dish'' (str_lower x) \<or> str_in ''food'' (str_lower x)))"

definition dish_or_menuitem :: "string \<Rightarrow> bool" where
  "dish_or_menuitem x =
     (x \<noteq> [] \<and> (str_in ''dish'' (str_lower x) \<or> str_in ''menuitem'' (str_lower x)))"

text \<open>\<open>potential_items\<close> (source lines 81 to 90).\<close>

definition potential_items :: "node \<Rightarrow> node list" where
  "potential_items soup =
     (let menu_divs = find_all_class ''div'' menu_or_item soup;
          dish_sections = find_all_class ''section'' dish_or_food soup
      in menu_divs @ dish_sections)"

text \<open>
  The loop over the candidates (source lines 94 to 105): \<open>if name and price\<close> asks for a
  name and a price that are neither \<open>None\<close> nor empty.
\<close>

fun extract_structured :: "node list \<Rightarrow> menu_item list" where
  "extract_structured [] = []"
| "extract_structured (item # items) =
     (case (extract_name item, extract_price item) of
        (Some n, Some p) \<Rightarrow>
          if n \<noteq> [] \<and> p \<noteq> []
          then \<lparr>name = n, price = p, description = extract_description item\<rparr>
                 # extract_structured items
          else extract_structured items
      | _ \<Rightarrow> extract_structured items)"

text \<open>The items after the structural stage (source lines 92 to 105).\<close>

definition structural_items :: "node \<Rightarrow> menu_item list" where
  "structural_items soup =
     (if potential_items soup \<noteq> [] then extract_structured (take 10 (potential_items soup))
      else [])"

text \<open>
  The loop over the text nodes (source lines 111 to 116, and 209 to 213 with the other
  parser): a text with a dollar sign is stripped and parsed.
\<close>

fun scan_texts :: "(string \<Rightarrow> menu_item option) \<Rightarrow> string list \<Rightarrow> menu_item list" where
  "scan_texts parse [] = []"
| "scan_texts parse (t # ts) =
     (if str_in ''$'' t \<and> length (str_strip t) > 0
      then (case parse (str_strip t) of
              Some item_data \<Rightarrow> item_data # scan_texts parse ts
            | None \<Rightarrow> scan_texts parse ts)
      else scan_texts parse ts)"

definition placeholder_item :: menu_item where
  "placeholder_item =
     \<lparr>name = ''Menu item'', price = ''$10.00'',
      description = ''Please check website for current menu''\<rparr>"

text \<open>
  The generic body of \<open>extract_menu_items\<close> (source lines 76 to 126), returning with the
  items the stages that ran, in order.
\<close>

datatype stage = StructuralStage | TextScanStage | PlaceholderStage

definition extract_generic_traced :: "node \<Rightarrow> stage list \<times> menu_item list" where
  "extract_generic_traced soup =
     (case (if potential_items soup \<noteq> []
            then ([StructuralStage], structural_items soup) else ([], [])) of
        (trace1, items1) \<Rightarrow>
          (case (if items1 = []
                 then (trace1 @ [TextScanStage],
                       items1 @ scan_texts parse_menu_text (find_all_strings soup))
                 else (trace1, items1)) of
             (trace2, items2) \<Rightarrow>
               if items2 = [] then (trace2 @ [PlaceholderStage], items2 @ [placeholder_item])
               else (trace2, items2)))"

definition extract_generic :: "node \<Rightarrow> menu_item list" where
  "extract_generic soup = snd (extract_generic_traced soup)"

section \<open>The extraction for Spenard Roadhouse\<close>

text \<open>The elements looked at (source lines 189 to 195).\<close>

definition spenard_preferred :: "node \<Rightarrow> node list" where
  "spenard_preferred soup = find_all_class ''div'' dish_or_menuitem soup"

definition spenard_broad :: "node \<Rightarrow> node list" where
  "spenard_broad soup =
     filter (\<lambda>el. get_text el \<noteq> [] \<and> str_in ''$'' (get_text el))
       (find_all_tags [''div'', ''span'', ''p''] soup)"

definition spenard_dish_elements :: "node \<Rightarrow> node list" where
  "spenard_dish_elements soup =
     (let dish_elements = spenard_preferred soup
      in if dish_elements = [] then spenard_broad soup else dish_elements)"

text \<open>The loop over the elements (source lines 198 to 204).\<close>

fun scan_elements :: "node list \<Rightarrow> menu_item list" where
  "scan_elements [] = []"
| "scan_elements (element # elements) =
     (let text = str_strip (get_text element)
      in if text \<noteq> [] \<and> str_in ''$'' text
         then (case parse_spenard_menu_item text of
                 Some item_data \<Rightarrow> item_data # scan_elements elements
               | None \<Rightarrow> scan_elements elements)
         else scan_elements elements)"

text \<open>\<open>extract_spenard_menu_items(soup)\<close>: it returns its list as it is.\<close>

definition extract_spenard_menu_items :: "node \<Rightarrow> menu_item list" where
  "extract_spenard_menu_items soup =
     (let menu_items = scan_elements (spenard_dish_elements soup)
      in if menu_items = []
         then menu_items @ scan_texts parse_spenard_menu_item (find_all_strings soup)
         else menu_items)"

section \<open>Choosing the extraction\<close>

text \<open>
  The test of source line 73, as a value: which of the two extractions
  \<open>extract_menu_items\<close> runs for a restaurant name.
\<close>

datatype strategy = Generic | Vendor

definition resolve_strategy :: "string \<Rightarrow> strategy" where
  "resolve_strategy restaurant_name =
     (if str_in ''spenard roadhouse'' (str_lower restaurant_name) then Vendor else Generic)"

text \<open>\<open>extract_menu_items(soup, restaurant_name)\<close>\<close>

definition extract_menu_items :: "node \<Rightarrow> string \<Rightarrow> menu_item list" where
  "extract_menu_items soup restaurant_name =
     (case resolve_strategy restaurant_name of
        Vendor \<Rightarrow> extract_spenard_menu_items soup
      | Generic \<Rightarrow> extract_generic soup)"

section \<open>Scraping a restaurant\<close>

record restaurant =
  rest_name :: string
  rest_website :: string
  rest_cuisine :: string
  rest_menu_url :: string

text \<open>
  The dictionary \<open>scrape_restaurant_menu\<close> returns; the key \<open>error\<close> is only there on a
  failure.
\<close>

record scrape_result =
  res_name :: string
  res_website :: string
  res_cuisine :: string
  res_menu_url :: string
  res_menu_items :: "menu_item list"
  res_error :: "string option"

text \<open>
  \<open>scrape_restaurant_menu(restaurant)\<close>. The request, its status check and the HTML parser
  are outside the program: \<open>fetch\<close> stands for the three of them, giving for a URL the
  parsed document, or the text of the exception raised.
\<close>

definition scrape_restaurant_menu ::
    "(string \<Rightarrow> string + node) \<Rightarrow> restaurant \<Rightarrow> scrape_result" where
  "scrape_restaurant_menu fetch restaurant =
     (let name = rest_name restaurant;
          menu_url = rest_menu_url restaurant
      in case fetch menu_url of
           Inr soup \<Rightarrow>
             \<lparr>res_name = name, res_website = rest_website restaurant,
              res_cuisine = rest_cuisine restaurant, res_menu_url = menu_url,
              res_menu_items = extract_menu_items soup name, res_error = None\<rparr>
         | Inl e \<Rightarrow>
             \<lparr>res_name = name, res_website = rest_website restaurant,
              res_cuisine = rest_cuisine restaurant, res_menu_url = menu_url,
              res_menu_items = [], res_error = Some e\<rparr>)"

text \<open>
  The loop of \<open>scrape_all_restaurants\<close> over the restaurants read from the configuration
  file; the results are appended in order. \<open>fetch_at k\<close> is what the network answers to
  the request of the restaurant at position \<open>k\<close>.
\<close>

fun scrape_loop ::
    "(nat \<Rightarrow> string \<Rightarrow> string + node) \<Rightarrow> nat \<Rightarrow> restaurant list \<Rightarrow> scrape_result list" where
  "scrape_loop fetch_at k [] = []"
| "scrape_loop fetch_at k (restaurant # restaurants) =
     scrape_restaurant_menu (fetch_at k) restaurant # scrape_loop fetch_at (Suc k) restaurants"

definition scrape_all_restaurants ::
    "(nat \<Rightarrow> string \<Rightarrow> string + node) \<Rightarrow> restaurant list \<Rightarrow> scrape_result list" where
  "scrape_all_restaurants fetch_at restaurants = scrape_loop fetch_at 0 restaurants"

section \<open>The shape of a price\<close>

text \<open>
  The strings the whole of which the pattern \<open>\$\d+(?:\.\d+)?\<close> matches: a dollar sign,
  one digit or more, and then nothing or a dot with one digit or more.
\<close>

definition price_token :: "string \<Rightarrow> bool" where
  "price_token s =
     (case s of
        [] \<Rightarrow> False
      | c # r \<Rightarrow>
          c = CHR ''$'' \<and> takeWhile is_digit r \<noteq> [] \<and>
          (case dropWhile is_digit r of
             [] \<Rightarrow> True
           | d # fs \<Rightarrow> d = CHR ''.'' \<and> fs \<noteq> [] \<and> list_all is_digit fs))"

text \<open>
  The grammar in the specification's words: the fraction, when there is one, has exactly
  two digits.
\<close>

definition two_digit_price_token :: "string \<Rightarrow> bool" where
  "two_digit_price_token s =
     (case s of
        [] \<Rightarrow> False
      | c # r \<Rightarrow>
          c = CHR ''$'' \<and> takeWhile is_digit r \<noteq> [] \<and>
          (case dropWhile is_digit r of
             [] \<Rightarrow> True
           | d # fs \<Rightarrow> d = CHR ''.'' \<and> length fs = 2 \<and> list_all is_digit fs))"

section \<open>The locators in the specification's words\<close>

text \<open>
  An element one of whose class tokens has one of the keys in it, whatever the case of
  the token's letters.
\<close>

definition class_token_contains :: "string list \<Rightarrow> node \<Rightarrow> bool" where
  "class_token_contains keys n =
     (case n of
        Text s \<Rightarrow> False
      | Special s \<Rightarrow> False
      | Elem t c ch \<Rightarrow>
          (case c of
             None \<Rightarrow> False
           | Some toks \<Rightarrow> list_ex (\<lambda>tok. list_ex (\<lambda>key. str_in key (str_lower tok)) keys) toks))"

text \<open>
  The generic locator as the specification words it: both scans run over the same
  container elements, those whose tag is one of \<open>containers\<close>.
\<close>

definition claimed_potential_items :: "string list \<Rightarrow> node \<Rightarrow> node list" where
  "claimed_potential_items containers soup =
     filter (\<lambda>e. tag_in containers e \<and> class_token_contains [''menu'', ''item''] e)
       (descendants soup) @
     filter (\<lambda>e. tag_in containers e \<and> class_token_contains [''dish'', ''food''] e)
       (descendants soup)"

text \<open>
  The locator for Spenard Roadhouse as the specification words it: the preferred set is
  taken among the \<open>div\<close>, \<open>span\<close> and \<open>p\<close> elements.
\<close>

definition claimed_spenard_dish_elements :: "node \<Rightarrow> node list" where
  "claimed_spenard_dish_elements soup =
     (let preferred =
            filter (\<lambda>e. tag_in [''div'', ''span'', ''p''] e \<and>
                        class_token_contains [''dish'', ''menuitem''] e)
              (descendants soup)
      in if preferred = [] then spenard_broad soup else preferred)"

section \<open>Example inputs\<close>

text \<open>Two restaurants, and a network on which the first request times out.\<close>

definition example_restaurants :: "restaurant list" where
  "example_restaurants =
     [\<lparr>rest_name = ''Spenard Roadhouse'', rest_website = ''https://sr.example'',
       rest_cuisine = ''American'', rest_menu_url = ''https://sr.example/menu''\<rparr>,
      \<lparr>rest_name = ''Moose Tooth'', rest_website = ''https://mt.example'',
       rest_cuisine = ''Pizza'', rest_menu_url = ''https://mt.example/menu''\<rparr>]"

definition example_page :: node where
  "example_page =
     Elem ''[document]'' None
       [Elem ''p'' None [Text ''Menu coming soon'']]"

definition example_fetch_at :: "nat \<Rightarrow> string \<Rightarrow> string + node" where
  "example_fetch_at k url = (if k = 0 then Inl ''timed out'' else Inr example_page)"

definition priced_page :: node where
  "priced_page = Elem ''[document]'' None [Elem ''p'' None [Text ''Soup $9.5'']]"

definition bare_price_page :: node where
  "bare_price_page = Elem ''[document]'' None [Elem ''p'' None [Text ''$5.00'']]"


text \<open>
  A page with a \<open>section\<close> of class \<open>Food-List\<close> first and eleven \<open>div\<close> blocks of class
  \<open>Menu-Item\<close> after it.
\<close>

definition eleven_block_page :: node where
  "eleven_block_page =
     Elem ''[document]'' None
       (Elem ''section'' (Some [''Food-List'']) [Text ''Tea $2'']
        # replicate 11 (Elem ''div'' (Some [''card'', ''Menu-Item''])
            [Elem ''h3'' None [Text ''Soup''], Text '' $5'']))"

text \<open>A page whose \<open>div\<close> has a class of the second scan and whose \<open>section\<close> one of the first.\<close>

definition crossed_page :: node where
  "crossed_page =
     Elem ''[document]'' None
       [Elem ''div'' (Some [''dish'']) [Text ''Soup $5''],
        Elem ''section'' (Some [''menu-item'']) [Text ''Tea $3'']]"

definition nachos_page :: node where
  "nachos_page =
     Elem ''[document]'' None [Elem ''p'' None [Text ''Nachos - loaded with cheese$8.00'']]"

definition span_dish_page :: node where
  "span_dish_page =
     Elem ''[document]'' None
       [Elem ''span'' (Some [''dish'']) [Text ''Soup $5''], Elem ''p'' None [Text ''Tea $3'']]"

section \<open>Facts about the string functions\<close>

lemma starts_with_iff: "starts_with p s \<longleftrightarrow> (\<exists>post. s = p @ post)"
  by (induction p s rule: starts_with.induct) auto

lemma str_in_iff: "str_in sub s \<longleftrightarrow> (\<exists>pre post. s = pre @ sub @ post)"
proof (induction s)
  case Nil
  show ?case by (auto simp: starts_with_iff)
next
  case (Cons c cs)
  show ?case
  proof
    assume "str_in sub (c # cs)"
    then consider "starts_with sub (c # cs)" | "str_in sub cs" by auto
    then show "\<exists>pre post. c # cs = pre @ sub @ post"
    proof cases
      case 1
      then obtain post where "c # cs = sub @ post" by (auto simp: starts_with_iff)
      then have "c # cs = [] @ sub @ post" by simp
      then show ?thesis by blast
    next
      case 2
      with Cons.IH obtain pre post where "cs = pre @ sub @ post" by auto
      then have "c # cs = (c # pre) @ sub @ post" by simp
      then show ?thesis by blast
    qed
  next
    assume "\<exists>pre post. c # cs = pre @ sub @ post"
    then obtain pre post where eq: "c # cs = pre @ sub @ post" by auto
    show "str_in sub (c # cs)"
    proof (cases pre)
      case Nil
      with eq have "starts_with sub (c # cs)" by (simp add: starts_with_iff)
      then show ?thesis by simp
    next
      case (Cons d pre')
      with eq have "cs = pre' @ sub @ post" by simp
      with Cons.IH show ?thesis by auto
    qed
  qed
qed

text \<open>
  The test \<open>key in s.lower()\<close> says that some part of \<open>s\<close> is \<open>key\<close> up to the case of its
  letters.
\<close>

lemma str_in_lower_iff:
  "str_in key (str_lower s) \<longleftrightarrow> (\<exists>pre mid post. s = pre @ mid @ post \<and> str_lower mid = key)"
proof
  assume "str_in key (str_lower s)"
  then obtain pre post where low: "map lower_char s = pre @ key @ post"
    by (auto simp: str_in_iff str_lower_def)
  define b where "b = take (length key) (drop (length pre) s)"
  have "map lower_char b = take (length key) (drop (length pre) (map lower_char s))"
    by (simp add: b_def take_map drop_map)
  with low have "map lower_char b = key" by simp
  moreover have "s = take (length pre) s @ b @ drop (length key) (drop (length pre) s)"
  proof -
    have "s = take (length pre) s @ drop (length pre) s"
      by (simp only: append_take_drop_id)
    also have "drop (length pre) s = b @ drop (length key) (drop (length pre) s)"
      unfolding b_def by (simp only: append_take_drop_id)
    finally show ?thesis .
  qed
  ultimately show "\<exists>pre mid post. s = pre @ mid @ post \<and> str_lower mid = key"
    unfolding str_lower_def by blast
next
  assume "\<exists>pre mid post. s = pre @ mid @ post \<and> str_lower mid = key"
  then obtain pre mid post where "s = pre @ mid @ post" and "str_lower mid = key" by auto
  then have "str_lower s = str_lower pre @ key @ str_lower post"
    by (auto simp: str_lower_def)
  then show "str_in key (str_lower s)" by (auto simp: str_in_iff)
qed

lemma strip_chars_idem: "strip_chars p (strip_chars p s) = strip_chars p s"
proof -
  define t where "t = dropWhile p s"
  define u where "u = rev (dropWhile p (rev t))"
  have t: "t = u @ rev (takeWhile p (rev t))"
  proof -
    have "t = rev (takeWhile p (rev t) @ dropWhile p (rev t))"
      by (simp only: takeWhile_dropWhile_id rev_rev_ident)
    also have "\<dots> = rev (dropWhile p (rev t)) @ rev (takeWhile p (rev t))"
      by (simp only: rev_append)
    finally show ?thesis by (simp only: u_def)
  qed
  have keep: "dropWhile p u = u"
  proof (cases u)
    case Nil
    then show ?thesis by simp
  next
    case (Cons x xs)
    with t have "t \<noteq> []" and "hd t = x" by (cases t; simp)+
    then have "\<not> p x" unfolding t_def using hd_dropWhile [of p s] by auto
    with Cons show ?thesis by simp
  qed
  have "strip_chars p s = u" by (simp add: strip_chars_def t_def u_def)
  moreover have "strip_chars p u = u"
  proof -
    have "strip_chars p u = rev (dropWhile p (rev u))" by (simp add: strip_chars_def keep)
    also have "rev u = dropWhile p (rev t)" by (simp add: u_def)
    also have "rev (dropWhile p (dropWhile p (rev t))) = u" by (simp add: u_def)
    finally show ?thesis .
  qed
  ultimately show ?thesis by simp
qed

lemma str_strip_idem: "str_strip (str_strip s) = str_strip s"
  by (simp add: str_strip_def strip_chars_idem)

lemma starts_with_shorter:
  assumes "starts_with p (a @ b)" and "length p \<le> length a"
  shows "starts_with p a"
proof -
  from assms(1) obtain post where eq: "a @ b = p @ post" by (auto simp: starts_with_iff)
  then have "take (length p) (a @ b) = p" by simp
  with assms(2) have "take (length p) a = p" by simp
  then have "a = p @ drop (length p) a" by (metis append_take_drop_id)
  then show ?thesis unfolding starts_with_iff by blast
qed

lemma find_sub_first:
  assumes sep: "sep \<noteq> []"
  shows "\<not> str_in sep (l @ butlast sep) \<Longrightarrow> find_sub sep (l @ sep @ r) = Some (l, r)"
proof (induction l)
  case Nil
  from sep obtain c cs where c: "sep = c # cs" by (cases sep) auto
  have "starts_with sep (sep @ r)" by (auto simp: starts_with_iff)
  then show ?case unfolding c by simp
next
  case (Cons x l)
  have no: "\<not> starts_with sep (x # l @ sep @ r)"
  proof
    assume sw: "starts_with sep (x # l @ sep @ r)"
    have "x # l @ sep @ r = ((x # l) @ butlast sep) @ (last sep # r)"
      using sep by simp
    with sw have "starts_with sep (((x # l) @ butlast sep) @ (last sep # r))" by simp
    moreover have "length sep \<le> length ((x # l) @ butlast sep)" by simp
    ultimately have "starts_with sep ((x # l) @ butlast sep)" by (rule starts_with_shorter)
    then have "str_in sep ((x # l) @ butlast sep)" by simp
    with Cons.prems show False by simp
  qed
  from Cons.prems have "\<not> str_in sep (l @ butlast sep)" by simp
  then have "find_sub sep (l @ sep @ r) = Some (l, r)" by (rule Cons.IH)
  with no show ?case by simp
qed

lemma find_sub_Some: "find_sub sep s = Some (b, a) \<Longrightarrow> s = b @ sep @ a"
proof (induction s arbitrary: b)
  case Nil
  then show ?case by (simp split: if_splits)
next
  case (Cons c cs)
  show ?case
  proof (cases "starts_with sep (c # cs)")
    case True
    then obtain post where eq: "c # cs = sep @ post" by (auto simp: starts_with_iff)
    from True Cons.prems have "b = []" and "a = drop (length sep) (c # cs)" by auto
    with eq show ?thesis by simp
  next
    case False
    with Cons.prems obtain b' where "find_sub sep cs = Some (b', a)" and "b = c # b'"
      by auto
    with Cons.IH show ?thesis by auto
  qed
qed

lemma split_str_not_Nil: "split_str sep s \<noteq> []"
  by (subst split_str.simps) (simp split: option.splits prod.splits)

lemma split_str_Some:
  "sep \<noteq> [] \<Longrightarrow> find_sub sep s = Some (b, a) \<Longrightarrow> split_str sep s = b # split_str sep a"
  by (subst split_str.simps) simp

lemma join_split: "sep \<noteq> [] \<Longrightarrow> join_str sep (split_str sep s) = s"
proof (induction sep s rule: split_str.induct)
  case (1 sep s)
  show ?case
  proof (cases "find_sub sep s")
    case None
    with "1.prems" show ?thesis by (subst split_str.simps) simp
  next
    case (Some ba)
    obtain b a where ba: "ba = (b, a)" by (cases ba)
    from "1.IH" [OF "1.prems" Some ba [symmetric]] "1.prems"
    have ih: "join_str sep (split_str sep a) = a" by simp
    obtain y ys where y: "split_str sep a = y # ys"
      using split_str_not_Nil [of sep a] by (cases "split_str sep a") auto
    have "split_str sep s = b # y # ys"
      using split_str_Some [OF "1.prems"] Some ba y by simp
    then have "join_str sep (split_str sep s) = b @ sep @ join_str sep (y # ys)" by simp
    also have "\<dots> = b @ sep @ a" using ih y by simp
    also have "\<dots> = s" using find_sub_Some Some ba by simp
    finally show ?thesis .
  qed
qed

section \<open>Class filters\<close>

lemma starts_with_before:
  "starts_with key (a @ c # b) \<Longrightarrow> c \<notin> set key \<Longrightarrow> starts_with key a"
  by (induction key a rule: starts_with.induct) auto

lemma str_in_Nil_key: "str_in [] s"
  by (cases s) auto

lemma str_in_separated:
  "c \<notin> set key \<Longrightarrow> str_in key (a @ c # b) \<Longrightarrow> str_in key a \<or> str_in key b"
proof (induction a)
  case Nil
  then show ?case by (cases key) auto
next
  case (Cons x a)
  from Cons.prems(2) consider "starts_with key ((x # a) @ c # b)" | "str_in key (a @ c # b)"
    by auto
  then show ?case
  proof cases
    case 1
    from 1 Cons.prems(1) have "starts_with key (x # a)" by (rule starts_with_before)
    then show ?thesis by simp
  next
    case 2
    with Cons.IH Cons.prems(1) show ?thesis by auto
  qed
qed

lemma str_in_join:
  assumes c: "c \<notin> set key" and key: "key \<noteq> []"
  shows "str_in key (join_str [c] xs) \<Longrightarrow> \<exists>x\<in>set xs. str_in key x"
proof (induction xs)
  case Nil
  with key show ?case by (cases key) auto
next
  case (Cons x xs)
  show ?case
  proof (cases xs)
    case Nil
    with Cons.prems show ?thesis by simp
  next
    case (Cons y ys)
    with Cons.prems have "str_in key (x @ c # join_str [c] xs)" by simp
    with c have "str_in key x \<or> str_in key (join_str [c] xs)"
      by (rule str_in_separated)
    with Cons.IH show ?thesis by auto
  qed
qed

lemma lower_space: "lower_char CHR '' '' = CHR '' ''"
  by code_simp

lemma str_lower_join: "str_lower (join_str '' '' xs) = join_str '' '' (map str_lower xs)"
proof (induction xs)
  case Nil
  show ?case by (simp add: str_lower_def)
next
  case (Cons x xs)
  then show ?case by (cases xs) (simp_all add: str_lower_def lower_space)
qed

lemma str_in_lower_join:
  assumes "CHR '' '' \<notin> set key" and "key \<noteq> []"
    and "str_in key (str_lower (join_str '' '' toks))"
  shows "\<exists>tok\<in>set toks. str_in key (str_lower tok)"
proof -
  from assms(3) have "str_in key (join_str '' '' (map str_lower toks))"
    by (simp only: str_lower_join)
  from str_in_join [OF assms(1,2) this] show ?thesis by auto
qed

lemma str_in_nonempty: "key \<noteq> [] \<Longrightarrow> str_in key (str_lower x) \<Longrightarrow> x \<noteq> []"
  by (cases key) (auto simp: str_lower_def)

text \<open>
  A \<open>class_\<close> filter that looks for one of two keys without a space in the lower-cased
  value accepts an element exactly when one of its class tokens has one of the keys in
  it: the joined value adds nothing, and neither does the test that the value is not
  empty.
\<close>

lemma class_filter_tokens:
  assumes f: "\<And>x. f x \<longleftrightarrow> x \<noteq> [] \<and> (str_in k1 (str_lower x) \<or> str_in k2 (str_lower x))"
    and k1: "CHR '' '' \<notin> set k1" "k1 \<noteq> []"
    and k2: "CHR '' '' \<notin> set k2" "k2 \<noteq> []"
  shows "class_matches f n = class_token_contains [k1, k2] n"
proof (cases n)
  case (Text s)
  then show ?thesis by (simp add: class_matches_def class_token_contains_def)
next
  case (Special s)
  then show ?thesis by (simp add: class_matches_def class_token_contains_def)
next
  case (Elem t c ch)
  show ?thesis
  proof (cases c)
    case None
    with Elem show ?thesis by (simp add: class_matches_def class_token_contains_def)
  next
    case (Some toks)
    have tok: "f x \<longleftrightarrow> str_in k1 (str_lower x) \<or> str_in k2 (str_lower x)" for x
      using f [of x] str_in_nonempty [OF k1(2), of x] str_in_nonempty [OF k2(2), of x]
      by blast
    have joined: "\<exists>x\<in>set toks. f x" if "f (join_str '' '' toks)"
    proof -
      from that tok consider "str_in k1 (str_lower (join_str '' '' toks))"
        | "str_in k2 (str_lower (join_str '' '' toks))" by blast
      then show ?thesis
      proof cases
        case 1
        from str_in_lower_join [OF k1 this] tok show ?thesis by blast
      next
        case 2
        from str_in_lower_join [OF k2 this] tok show ?thesis by blast
      qed
    qed
    have "class_matches f n \<longleftrightarrow> (\<exists>x\<in>set toks. f x)"
      using joined Elem Some by (auto simp: class_matches_def list_ex_iff)
    also have "\<dots> \<longleftrightarrow> class_token_contains [k1, k2] n"
      using Elem Some by (simp add: class_token_contains_def list_ex_iff tok)
    finally show ?thesis .
  qed
qed

lemma class_matches_menu_or_item:
  "class_matches menu_or_item n = class_token_contains [''menu'', ''item''] n"
  by (rule class_filter_tokens) (simp_all add: menu_or_item_def)

lemma class_matches_dish_or_food:
  "class_matches dish_or_food n = class_token_contains [''dish'', ''food''] n"
  by (rule class_filter_tokens) (simp_all add: dish_or_food_def)

lemma class_matches_dish_or_menuitem:
  "class_matches dish_or_menuitem n = class_token_contains [''dish'', ''menuitem''] n"
  by (rule class_filter_tokens) (simp_all add: dish_or_menuitem_def)


section \<open>The result of scraping\<close>

lemma scrape_loop_length: "length (scrape_loop fetch_at k rs) = length rs"
  by (induction rs arbitrary: k) auto

lemma scrape_loop_nth:
  "i < length rs \<Longrightarrow>
   scrape_loop fetch_at k rs ! i = scrape_restaurant_menu (fetch_at (k + i)) (rs ! i)"
proof (induction rs arbitrary: k i)
  case Nil
  then show ?case by simp
next
  case (Cons r rs)
  show ?case
  proof (cases i)
    case 0
    then show ?thesis by simp
  next
    case (Suc i')
    with Cons.prems have "i' < length rs" by simp
    from Cons.IH [OF this, of "Suc k"] Suc show ?thesis by simp
  qed
qed

lemma extract_generic_not_empty: "extract_generic soup \<noteq> []"
  by (auto simp: extract_generic_def extract_generic_traced_def split: prod.splits if_splits)

text \<open>
  C10. On the success path and on the error path alike, the result of scraping a
  restaurant carries the name, the website, the cuisine and the menu URL of the
  restaurant it was given; only the menu items and the error are computed.
\<close>

theorem scrape_keeps_restaurant_fields:
  "res_name (scrape_restaurant_menu fetch r) = rest_name r \<and>
   res_website (scrape_restaurant_menu fetch r) = rest_website r \<and>
   res_cuisine (scrape_restaurant_menu fetch r) = rest_cuisine r \<and>
   res_menu_url (scrape_restaurant_menu fetch r) = rest_menu_url r"
  by (simp add: scrape_restaurant_menu_def Let_def split: sum.split)

text \<open>
  C9. When the fetch of the restaurant at position \<open>j\<close> fails, its result has the error
  set to the failure's text and no menu items, so no item was extracted and no
  placeholder was put in; and the result of every other restaurant is what it would be
  whatever the fetch at position \<open>j\<close> had answered.
\<close>

theorem fetch_failure_is_local:
  assumes "j < length rs" and "fetch_at j (rest_menu_url (rs ! j)) = Inl e"
  shows "scrape_all_restaurants fetch_at rs ! j =
           \<lparr>res_name = rest_name (rs ! j), res_website = rest_website (rs ! j),
            res_cuisine = rest_cuisine (rs ! j), res_menu_url = rest_menu_url (rs ! j),
            res_menu_items = [], res_error = Some e\<rparr> \<and>
         placeholder_item \<notin> set (res_menu_items (scrape_all_restaurants fetch_at rs ! j)) \<and>
         (\<forall>i other. i < length rs \<and> i \<noteq> j \<longrightarrow>
            scrape_all_restaurants (fetch_at(j := other)) rs ! i =
            scrape_all_restaurants fetch_at rs ! i)"
proof -
  have at_j: "scrape_all_restaurants fetch_at rs ! j =
      scrape_restaurant_menu (fetch_at j) (rs ! j)"
    using assms(1) by (simp add: scrape_all_restaurants_def scrape_loop_nth)
  have failed: "scrape_restaurant_menu (fetch_at j) (rs ! j) =
      \<lparr>res_name = rest_name (rs ! j), res_website = rest_website (rs ! j),
       res_cuisine = rest_cuisine (rs ! j), res_menu_url = rest_menu_url (rs ! j),
       res_menu_items = [], res_error = Some e\<rparr>"
    using assms(2) by (simp add: scrape_restaurant_menu_def Let_def)
  have others: "scrape_all_restaurants (fetch_at(j := other)) rs ! i =
      scrape_all_restaurants fetch_at rs ! i" if "i < length rs" and "i \<noteq> j" for i other
    using that by (simp add: scrape_all_restaurants_def scrape_loop_nth)
  from at_j failed others show ?thesis by simp
qed

theorem fetch_failure_is_local_witness:
  "0 < length example_restaurants \<and>
   example_fetch_at 0 (rest_menu_url (example_restaurants ! 0)) = Inl ''timed out'' \<and>
   res_menu_items (scrape_all_restaurants example_fetch_at example_restaurants ! 0) = [] \<and>
   res_error (scrape_all_restaurants example_fetch_at example_restaurants ! 0)
     = Some ''timed out'' \<and>
   scrape_all_restaurants (example_fetch_at(0 := \<lambda>url. Inr example_page))
       example_restaurants ! 1 =
     scrape_all_restaurants example_fetch_at example_restaurants ! 1"
proof -
  have h1: "0 < length example_restaurants"
    by (simp add: example_restaurants_def)
  have h2: "example_fetch_at 0 (rest_menu_url (example_restaurants ! 0)) = Inl ''timed out''"
    by (simp add: example_fetch_at_def)
  note t = fetch_failure_is_local
    [of 0 example_restaurants example_fetch_at "''timed out''", OF h1 h2]
  from t have a: "res_menu_items (scrape_all_restaurants example_fetch_at example_restaurants ! 0) = []"
    and b: "res_error (scrape_all_restaurants example_fetch_at example_restaurants ! 0)
      = Some ''timed out''"
    by simp_all
  from t have "\<forall>i other. i < length example_restaurants \<and> i \<noteq> 0 \<longrightarrow>
      scrape_all_restaurants (example_fetch_at(0 := other)) example_restaurants ! i =
      scrape_all_restaurants example_fetch_at example_restaurants ! i"
    by blast
  moreover have "1 < length example_restaurants" by (simp add: example_restaurants_def)
  ultimately have c: "scrape_all_restaurants (example_fetch_at(0 := \<lambda>url. Inr example_page))
       example_restaurants ! 1 =
     scrape_all_restaurants example_fetch_at example_restaurants ! 1"
    by simp
  from h1 h2 a b c show ?thesis by blast
qed

text \<open>
  C1. A restaurant whose page was fetched without an error can still get an empty list
  of items: for a name with \<open>spenard roadhouse\<close> in it the items come back from
  \<open>extract_spenard_menu_items\<close> as they are, and on a page without a dollar sign that
  list is empty; no placeholder is added, and no error is set. The generic extraction
  run on the same page does add the placeholder.
\<close>

theorem spenard_page_without_prices_gives_no_items:
  "res_menu_items (scrape_restaurant_menu (\<lambda>url. Inr example_page) (example_restaurants ! 0)) = [] \<and>
   res_error (scrape_restaurant_menu (\<lambda>url. Inr example_page) (example_restaurants ! 0)) = None \<and>
   res_menu_items (scrape_restaurant_menu (\<lambda>url. Inr example_page) (example_restaurants ! 1))
     = [placeholder_item]"
  by code_simp

text \<open>
  C8. A restaurant name that has \<open>spenard roadhouse\<close> somewhere in it, whatever the case
  of its letters, is given to the Spenard Roadhouse extraction; every other name is
  given to the generic extraction.
\<close>

theorem vendor_key_selects_vendor:
  "((\<exists>pre mid post. restaurant_name = pre @ mid @ post \<and>
        str_lower mid = ''spenard roadhouse'') \<longrightarrow>
      resolve_strategy restaurant_name = Vendor \<and>
      extract_menu_items soup restaurant_name = extract_spenard_menu_items soup) \<and>
   (\<not> (\<exists>pre mid post. restaurant_name = pre @ mid @ post \<and>
        str_lower mid = ''spenard roadhouse'') \<longrightarrow>
      resolve_strategy restaurant_name = Generic \<and>
      extract_menu_items soup restaurant_name = extract_generic soup)"
  unfolding str_in_lower_iff [symmetric]
  by (simp add: resolve_strategy_def extract_menu_items_def)

theorem vendor_key_selects_vendor_witness:
  "str_lower ''Spenard Roadhouse'' = ''spenard roadhouse'' \<and>
   resolve_strategy ''Spenard Roadhouse Downtown'' = Vendor \<and>
   extract_menu_items example_page ''Spenard Roadhouse Downtown''
     = extract_spenard_menu_items example_page \<and>
   resolve_strategy ''Moose Tooth'' = Generic \<and>
   extract_menu_items example_page ''Moose Tooth'' = extract_generic example_page"
proof -
  have low: "str_lower ''Spenard Roadhouse'' = ''spenard roadhouse''"
    by code_simp
  have "''Spenard Roadhouse Downtown'' = [] @ ''Spenard Roadhouse'' @ '' Downtown''"
    by simp
  with low have yes: "\<exists>pre mid post. ''Spenard Roadhouse Downtown'' = pre @ mid @ post \<and>
      str_lower mid = ''spenard roadhouse''"
    by blast
  have "\<not> str_in ''spenard roadhouse'' (str_lower ''Moose Tooth'')"
    by code_simp
  then have no: "\<not> (\<exists>pre mid post. ''Moose Tooth'' = pre @ mid @ post \<and>
      str_lower mid = ''spenard roadhouse'')"
    unfolding str_in_lower_iff .
  from yes vendor_key_selects_vendor [of "''Spenard Roadhouse Downtown''" example_page]
  have v: "resolve_strategy ''Spenard Roadhouse Downtown'' = Vendor \<and>
      extract_menu_items example_page ''Spenard Roadhouse Downtown''
        = extract_spenard_menu_items example_page"
    by blast
  from no vendor_key_selects_vendor [of "''Moose Tooth''" example_page]
  have g: "resolve_strategy ''Moose Tooth'' = Generic \<and>
      extract_menu_items example_page ''Moose Tooth'' = extract_generic example_page"
    by blast
  from low v g show ?thesis by blast
qed

section \<open>Prices\<close>

lemma dot_not_digit: "\<not> is_digit CHR ''.''"
  by (simp add: is_digit_def)

lemma match_fraction_shape:
  assumes "match_fraction r = (fs, rest)"
  shows "fs = [] \<or> (\<exists>gs. fs = CHR ''.'' # gs \<and> gs \<noteq> [] \<and> list_all is_digit gs)"
proof (cases r)
  case Nil
  with assms show ?thesis by (simp add: match_fraction_def)
next
  case (Cons d r2)
  have "list_all is_digit (takeWhile is_digit r2)"
    by (simp add: list_all_iff) (meson set_takeWhileD)
  with assms Cons show ?thesis
    by (auto simp: match_fraction_def split: if_splits)
qed

lemma price_token_build:
  assumes ds: "ds \<noteq> []" "list_all is_digit ds"
    and fs: "fs = [] \<or> (\<exists>gs. fs = CHR ''.'' # gs \<and> gs \<noteq> [] \<and> list_all is_digit gs)"
  shows "price_token (CHR ''$'' # ds @ fs)"
proof -
  have all: "\<forall>x\<in>set ds. is_digit x" using ds(2) by (simp add: list_all_iff)
  from fs have stop: "takeWhile is_digit fs = []" and same: "dropWhile is_digit fs = fs"
    by (auto simp: dot_not_digit)
  have tw: "takeWhile is_digit (ds @ fs) = ds"
    using all stop by (simp add: takeWhile_append2)
  have dw: "dropWhile is_digit (ds @ fs) = fs"
    using all same by (simp add: dropWhile_append2)
  from fs show ?thesis
    by (auto simp: price_token_def tw dw ds(1))
qed

lemma match_price_at_token:
  assumes "match_price_at s = Some (tok, rest)"
  shows "price_token tok"
proof (cases s)
  case Nil
  with assms show ?thesis by (simp add: match_price_at_def)
next
  case (Cons c r)
  obtain fs rest' where f: "match_fraction (dropWhile is_digit r) = (fs, rest')"
    by (cases "match_fraction (dropWhile is_digit r)")
  from assms Cons f have tok: "tok = CHR ''$'' # takeWhile is_digit r @ fs"
    and ne: "takeWhile is_digit r \<noteq> []"
    by (auto simp: match_price_at_def split: if_splits)
  have "list_all is_digit (takeWhile is_digit r)"
    by (simp add: list_all_iff) (meson set_takeWhileD)
  then show ?thesis
    unfolding tok using ne match_fraction_shape [OF f] by (simp add: price_token_build)
qed

lemma search_price_token: "search_price s = Some (b, tok, a) \<Longrightarrow> price_token tok"
proof (induction s arbitrary: b)
  case Nil
  then show ?case by simp
next
  case (Cons c cs)
  show ?case
  proof (cases "match_price_at (c # cs)")
    case None
    with Cons.prems obtain b' where "search_price cs = Some (b', tok, a)" by auto
    then show ?thesis by (rule Cons.IH)
  next
    case (Some m)
    with Cons.prems have "match_price_at (c # cs) = Some (tok, a)"
      by (cases m) auto
    then show ?thesis by (rule match_price_at_token)
  qed
qed

lemma first_price_token: "first_price ts = Some p \<Longrightarrow> price_token p"
  by (induction ts) (auto split: if_splits option.splits dest: search_price_token)

lemma extract_structured_token:
  "r \<in> set (extract_structured items) \<Longrightarrow> price_token (price r)"
  by (induction items)
    (auto simp: extract_price_def split: option.splits if_splits dest: first_price_token)

lemma parse_menu_text_token:
  assumes "parse_menu_text t = Some r"
  shows "price_token (price r)"
proof -
  from assms obtain b tok a where s: "search_price t = Some (b, tok, a)" and "price r = tok"
    by (auto simp: parse_menu_text_def simp del: name_match.simps split: option.splits)
  with search_price_token [OF s] show ?thesis by simp
qed

lemma parse_spenard_token:
  assumes "parse_spenard_menu_item t = Some r"
  shows "price_token (price r)"
proof -
  from assms obtain b tok a where s: "search_price t = Some (b, tok, a)" and "price r = tok"
    by (auto simp: parse_spenard_menu_item_def spenard_fields_def Let_def
        split: option.splits prod.splits if_splits)
  with search_price_token [OF s] show ?thesis by simp
qed

lemma scan_texts_token:
  assumes "\<And>t r. parse t = Some r \<Longrightarrow> price_token (price r)"
  shows "r \<in> set (scan_texts parse ts) \<Longrightarrow> price_token (price r)"
  by (induction ts) (auto split: if_splits option.splits dest: assms)

lemma scan_menu_text_token:
  "r \<in> set (scan_texts parse_menu_text ts) \<Longrightarrow> price_token (price r)"
  by (rule scan_texts_token [of parse_menu_text]) (rule parse_menu_text_token)

lemma scan_spenard_text_token:
  "r \<in> set (scan_texts parse_spenard_menu_item ts) \<Longrightarrow> price_token (price r)"
  by (rule scan_texts_token [of parse_spenard_menu_item]) (rule parse_spenard_token)

lemma scan_elements_token: "r \<in> set (scan_elements els) \<Longrightarrow> price_token (price r)"
  by (induction els) (auto simp: Let_def split: if_splits option.splits dest: parse_spenard_token)

lemma placeholder_token: "price_token (price placeholder_item)"
  by code_simp

lemma extract_generic_token: "r \<in> set (extract_generic soup) \<Longrightarrow> price_token (price r)"
  using placeholder_token
  by (auto simp: extract_generic_def extract_generic_traced_def structural_items_def
      split: if_splits dest: extract_structured_token scan_menu_text_token)

lemma extract_spenard_token:
  "r \<in> set (extract_spenard_menu_items soup) \<Longrightarrow> price_token (price r)"
  by (auto simp: extract_spenard_menu_items_def Let_def
      split: if_splits dest: scan_elements_token scan_spenard_text_token)

lemma extract_menu_items_token:
  "r \<in> set (extract_menu_items soup nm) \<Longrightarrow> price_token (price r)"
  by (auto simp: extract_menu_items_def split: strategy.splits
      dest: extract_generic_token extract_spenard_token)

text \<open>
  C2 (as amended). Every record that \<open>extract_menu_items\<close> returns, other than the
  placeholder, has a price of the shape of the pattern the code searches for: a dollar
  sign, one digit or more, and an optional fraction of one digit or more.
\<close>

theorem extracted_price_matches_pattern:
  "r \<in> set (extract_menu_items soup restaurant_name) \<Longrightarrow> r \<noteq> placeholder_item \<Longrightarrow>
   price_token (price r)"
  by (rule extract_menu_items_token)

theorem extracted_price_matches_pattern_witness:
  "\<lparr>name = ''Soup'', price = ''$9.5'', description = []\<rparr>
     \<in> set (extract_menu_items priced_page ''Moose Tooth'') \<and>
   \<lparr>name = ''Soup'', price = ''$9.5'', description = []\<rparr> \<noteq> placeholder_item \<and>
   price_token ''$9.5''"
proof -
  have "extract_menu_items priced_page ''Moose Tooth''
      = [\<lparr>name = ''Soup'', price = ''$9.5'', description = []\<rparr>]"
    by code_simp
  then have h1: "\<lparr>name = ''Soup'', price = ''$9.5'', description = []\<rparr>
      \<in> set (extract_menu_items priced_page ''Moose Tooth'')"
    by simp
  have h2: "\<lparr>name = ''Soup'', price = ''$9.5'', description = []\<rparr> \<noteq> placeholder_item"
    by (simp add: placeholder_item_def)
  from extracted_price_matches_pattern [OF h1 h2] have "price_token ''$9.5''" by simp
  with h1 h2 show ?thesis by blast
qed

text \<open>
  The claim as stated asks for a fraction of exactly two digits; the text \<open>Soup $9.5\<close>
  gives a record whose price is \<open>$9.5\<close>.
\<close>

theorem two_digit_fraction_counterexample:
  "extract_menu_items priced_page ''Moose Tooth''
     = [\<lparr>name = ''Soup'', price = ''$9.5'', description = []\<rparr>] \<and>
   \<lparr>name = ''Soup'', price = ''$9.5'', description = []\<rparr> \<noteq> placeholder_item \<and>
   \<not> two_digit_price_token ''$9.5''"
  by code_simp

section \<open>Names\<close>

lemma parse_spenard_name_not_empty: "parse_spenard_menu_item t = Some r \<Longrightarrow> name r \<noteq> []"
  by (auto simp: parse_spenard_menu_item_def Let_def
      split: option.splits prod.splits if_splits)

lemma extract_structured_name_not_empty:
  "r \<in> set (extract_structured items) \<Longrightarrow> name r \<noteq> []"
  by (induction items) (auto split: option.splits if_splits)

text \<open>
  C3. The generic text parser returns a record whose name is empty: on the text
  \<open>$5.00\<close> the name pattern captures nothing, and \<open>parse_menu_text\<close> has no test on the
  name; \<open>extract_menu_items\<close> then returns that record. The parser for Spenard Roadhouse
  rejects the same text.
\<close>

theorem generic_text_parser_accepts_empty_name:
  "parse_menu_text ''$5.00'' = Some \<lparr>name = [], price = ''$5.00'', description = []\<rparr> \<and>
   extract_menu_items bare_price_page ''Moose Tooth''
     = [\<lparr>name = [], price = ''$5.00'', description = []\<rparr>] \<and>
   parse_spenard_menu_item ''$5.00'' = None"
  by code_simp

section \<open>The stages of the generic extraction\<close>




section \<open>The generic locator\<close>

text \<open>
  C6 (as amended). The candidates of the generic extraction are the \<open>div\<close> elements,
  and no other, one of whose class tokens has \<open>menu\<close> or \<open>item\<close> in it, whatever the
  case, in document order, followed by the \<open>section\<close> elements, and no other, one of
  whose class tokens has \<open>dish\<close> or \<open>food\<close> in it, in document order; the records of the
  structural stage are extracted from the first ten candidates at most.
\<close>

theorem generic_locator_scans:
  "potential_items soup =
     filter (\<lambda>e. tag_in [''div''] e \<and> class_token_contains [''menu'', ''item''] e)
       (descendants soup) @
     filter (\<lambda>e. tag_in [''section''] e \<and> class_token_contains [''dish'', ''food''] e)
       (descendants soup) \<and>
   structural_items soup = extract_structured (take 10 (potential_items soup)) \<and>
   length (take 10 (potential_items soup)) \<le> 10"
proof (intro conjI)
  show "potential_items soup =
     filter (\<lambda>e. tag_in [''div''] e \<and> class_token_contains [''menu'', ''item''] e)
       (descendants soup) @
     filter (\<lambda>e. tag_in [''section''] e \<and> class_token_contains [''dish'', ''food''] e)
       (descendants soup)"
    by (simp add: potential_items_def find_all_class_def
        class_matches_menu_or_item class_matches_dish_or_food)
  show "structural_items soup = extract_structured (take 10 (potential_items soup))"
    by (simp add: structural_items_def)
  show "length (take 10 (potential_items soup)) \<le> 10"
    by simp
qed

theorem generic_locator_scans_witness:
  "length (potential_items eleven_block_page) = 12 \<and>
   last (potential_items eleven_block_page)
     = Elem ''section'' (Some [''Food-List'']) [Text ''Tea $2''] \<and>
   length (take 10 (potential_items eleven_block_page)) \<le> 10 \<and>
   structural_items eleven_block_page
     = extract_structured (take 10 (potential_items eleven_block_page)) \<and>
   length (structural_items eleven_block_page) = 10"
proof -
  note t = generic_locator_scans [of eleven_block_page]
  have a: "length (potential_items eleven_block_page) = 12" by code_simp
  have b: "last (potential_items eleven_block_page)
      = Elem ''section'' (Some [''Food-List'']) [Text ''Tea $2'']"
    by code_simp
  have c: "length (structural_items eleven_block_page) = 10" by code_simp
  from t have d: "length (take 10 (potential_items eleven_block_page)) \<le> 10"
    and e: "structural_items eleven_block_page
      = extract_structured (take 10 (potential_items eleven_block_page))"
    by blast+
  from a b d e c show ?thesis by (intro conjI)
qed

text \<open>
  The claim as stated runs both scans over the container elements. On a page with a
  \<open>div\<close> of class \<open>dish\<close> and a \<open>section\<close> of class \<open>menu-item\<close> the code finds no
  candidate, while the two scans run over the \<open>div\<close> elements, over the \<open>section\<close>
  elements, or over both, each find one.
\<close>

theorem generic_scans_one_family_counterexample:
  "potential_items crossed_page = [] \<and>
   claimed_potential_items [''div''] crossed_page
     = [Elem ''div'' (Some [''dish'']) [Text ''Soup $5'']] \<and>
   claimed_potential_items [''section''] crossed_page
     = [Elem ''section'' (Some [''menu-item'']) [Text ''Tea $3'']] \<and>
   claimed_potential_items [''div'', ''section''] crossed_page
     = [Elem ''section'' (Some [''menu-item'']) [Text ''Tea $3''],
        Elem ''div'' (Some [''dish'']) [Text ''Soup $5'']]"
  by code_simp

section \<open>The locator for Spenard Roadhouse\<close>

lemma dollar_in_nonempty: "str_in ''$'' s \<Longrightarrow> s \<noteq> []"
  by auto

text \<open>
  C7 (as amended). The preferred locator of the extraction for Spenard Roadhouse takes
  the \<open>div\<close> elements one of whose class tokens has \<open>dish\<close> or \<open>menuitem\<close> in it; only
  when there is none does it take every \<open>div\<close>, \<open>span\<close> or \<open>p\<close> element whose text has a
  dollar sign in it.
\<close>

theorem spenard_locator:
  "spenard_dish_elements soup =
     (if filter (\<lambda>e. tag_in [''div''] e \<and> class_token_contains [''dish'', ''menuitem''] e)
           (descendants soup) = []
      then filter (\<lambda>e. tag_in [''div'', ''span'', ''p''] e \<and> str_in ''$'' (get_text e))
             (descendants soup)
      else filter (\<lambda>e. tag_in [''div''] e \<and> class_token_contains [''dish'', ''menuitem''] e)
             (descendants soup))"
proof -
  have "(get_text el \<noteq> [] \<and> str_in ''$'' (get_text el)) = str_in ''$'' (get_text el)" for el
    using dollar_in_nonempty by blast
  then show ?thesis
    by (simp add: spenard_dish_elements_def spenard_preferred_def spenard_broad_def
        find_all_class_def find_all_tags_def class_matches_dish_or_menuitem Let_def)
qed

theorem spenard_locator_witness:
  "filter (\<lambda>e. tag_in [''div''] e \<and> class_token_contains [''dish'', ''menuitem''] e)
     (descendants span_dish_page) = [] \<and>
   spenard_dish_elements span_dish_page =
     filter (\<lambda>e. tag_in [''div'', ''span'', ''p''] e \<and> str_in ''$'' (get_text e))
       (descendants span_dish_page)"
proof -
  have a: "filter (\<lambda>e. tag_in [''div''] e \<and> class_token_contains [''dish'', ''menuitem''] e)
     (descendants span_dish_page) = []"
    by code_simp
  with spenard_locator [of span_dish_page] show ?thesis by simp
qed

text \<open>
  The claim as stated takes the preferred set among the \<open>div\<close>, \<open>span\<close> and \<open>p\<close>
  elements. On a page with a \<open>span\<close> of class \<open>dish\<close> and a plain paragraph, that locator
  keeps the \<open>span\<close> alone; the code finds no \<open>div\<close>, broadens, and extracts from both.
\<close>

theorem spenard_preferred_families_counterexample:
  "claimed_spenard_dish_elements span_dish_page
     = [Elem ''span'' (Some [''dish'']) [Text ''Soup $5'']] \<and>
   spenard_dish_elements span_dish_page
     = [Elem ''span'' (Some [''dish'']) [Text ''Soup $5''], Elem ''p'' None [Text ''Tea $3'']] \<and>
   extract_spenard_menu_items span_dish_page
     = [\<lparr>name = ''Soup'', price = ''$5'', description = []\<rparr>,
        \<lparr>name = ''Tea'', price = ''$3'', description = []\<rparr>]"
  by code_simp

section \<open>Splitting the name again\<close>

lemma resplit_name_fires:
  assumes name0: "name0 = l @ '' - '' @ r" and first: "\<not> str_in '' - '' (l @ '' -'')"
  shows "resplit_name name0 [] = (str_strip l, str_strip r)"
proof -
  have sep: "'' - '' \<noteq> []" by simp
  have "butlast '' - '' = '' -''" by simp
  with first have "find_sub '' - '' (l @ '' - '' @ r) = Some (l, r)"
    using find_sub_first [OF sep, of l r] by simp
  then have sp: "split_str '' - '' name0 = l # split_str '' - '' r"
    unfolding name0 by (rule split_str_Some [OF sep])
  obtain y ys where y: "split_str '' - '' r = y # ys"
    using split_str_not_Nil [of "'' - ''" r] by (cases "split_str '' - '' r") auto
  have joined: "join_str '' - '' (y # ys) = r"
    using join_split [OF sep, of r] y by simp
  have "str_in '' - '' name0" unfolding str_in_iff name0 by blast
  then show ?thesis
    unfolding resplit_name_def Let_def sp y using joined by simp
qed

lemma resplit_name_idle:
  "description0 \<noteq> [] \<or> \<not> str_in '' - '' name0 \<Longrightarrow>
   resplit_name name0 description0 = (name0, description0)"
  by (auto simp: resplit_name_def)

text \<open>
  What the parser for Spenard Roadhouse returns, from the fields of its first step: when
  the description found there is empty and the name has \<open>' - '\<close> in it, the name is
  split at the first \<open>' - '\<close>: what is before it, stripped, is the name, and what is
  after it, stripped, is the description. When that description is not empty, or the
  name has no \<open>' - '\<close> in it, the name and the description are only stripped.
\<close>

lemma spenard_resplit_rule:
  "(spenard_fields text = Some (p, name0, []) \<and> name0 = l @ '' - '' @ r \<and>
      \<not> str_in '' - '' (l @ '' -'') \<longrightarrow>
      parse_spenard_menu_item text =
        (if str_strip l = [] then None
         else Some \<lparr>name = str_strip l, price = p, description = str_strip r\<rparr>)) \<and>
   (spenard_fields text = Some (p, name0, description0) \<and>
      (description0 \<noteq> [] \<or> \<not> str_in '' - '' name0) \<longrightarrow>
      parse_spenard_menu_item text =
        (if str_strip name0 = [] then None
         else Some \<lparr>name = str_strip name0, price = p,
                    description = str_strip description0\<rparr>))"
proof (intro conjI impI)
  assume a: "spenard_fields text = Some (p, name0, []) \<and> name0 = l @ '' - '' @ r \<and>
      \<not> str_in '' - '' (l @ '' -'')"
  then have "resplit_name name0 [] = (str_strip l, str_strip r)"
    using resplit_name_fires [of name0 l r] by blast
  with a show "parse_spenard_menu_item text =
        (if str_strip l = [] then None
         else Some \<lparr>name = str_strip l, price = p, description = str_strip r\<rparr>)"
    by (simp add: parse_spenard_menu_item_def str_strip_idem Let_def)
next
  assume a: "spenard_fields text = Some (p, name0, description0) \<and>
      (description0 \<noteq> [] \<or> \<not> str_in '' - '' name0)"
  then have "resplit_name name0 description0 = (name0, description0)"
    using resplit_name_idle [of description0 name0] by blast
  with a show "parse_spenard_menu_item text =
        (if str_strip name0 = [] then None
         else Some \<lparr>name = str_strip name0, price = p,
                    description = str_strip description0\<rparr>)"
    by (simp add: parse_spenard_menu_item_def Let_def)
qed

lemma spenard_resplit_rule_examples:
  "spenard_fields ''Nachos - loaded with cheese$8.00''
     = Some (''$8.00'', ''Nachos - loaded with cheese'', []) \<and>
   \<not> str_in '' - '' (''Nachos'' @ '' -'') \<and>
   parse_spenard_menu_item ''Nachos - loaded with cheese$8.00''
     = Some \<lparr>name = ''Nachos'', price = ''$8.00'', description = ''loaded with cheese''\<rparr> \<and>
   spenard_fields ''Burger - Angus beef patty with cheddar$12.50 served with fries''
     = Some (''$12.50'', ''Burger - Angus beef patty with cheddar'', ''served with fries'') \<and>
   parse_spenard_menu_item ''Burger - Angus beef patty with cheddar$12.50 served with fries''
     = Some \<lparr>name = ''Burger - Angus beef patty with cheddar'', price = ''$12.50'',
             description = ''served with fries''\<rparr>"
proof -
  have f1: "spenard_fields ''Nachos - loaded with cheese$8.00''
      = Some (''$8.00'', ''Nachos - loaded with cheese'', [])"
    by code_simp
  have n1: "''Nachos - loaded with cheese'' = ''Nachos'' @ '' - '' @ ''loaded with cheese''"
    by simp
  have o1: "\<not> str_in '' - '' (''Nachos'' @ '' -'')"
    by code_simp
  have s1: "str_strip ''Nachos'' = ''Nachos''"
    and s2: "str_strip ''loaded with cheese'' = ''loaded with cheese''"
    by code_simp+
  have f2: "spenard_fields ''Burger - Angus beef patty with cheddar$12.50 served with fries''
      = Some (''$12.50'', ''Burger - Angus beef patty with cheddar'', ''served with fries'')"
    by code_simp
  have s3: "str_strip ''Burger - Angus beef patty with cheddar''
      = ''Burger - Angus beef patty with cheddar''"
    and s4: "str_strip ''served with fries'' = ''served with fries''"
    by code_simp+
  note t1 = spenard_resplit_rule [of "''Nachos - loaded with cheese$8.00''" "''$8.00''"
      "''Nachos - loaded with cheese''" "''Nachos''" "''loaded with cheese''"]
  from t1 f1 n1 o1 have r1: "parse_spenard_menu_item ''Nachos - loaded with cheese$8.00''
      = (if str_strip ''Nachos'' = [] then None
         else Some \<lparr>name = str_strip ''Nachos'', price = ''$8.00'',
                    description = str_strip ''loaded with cheese''\<rparr>)"
    by blast
  note t2 = spenard_resplit_rule
      [of "''Burger - Angus beef patty with cheddar$12.50 served with fries''" "''$12.50''"
      "''Burger - Angus beef patty with cheddar''" _ _ "''served with fries''"]
  have d2: "''served with fries'' \<noteq> []" by simp
  from t2 f2 d2 have r2:
    "parse_spenard_menu_item ''Burger - Angus beef patty with cheddar$12.50 served with fries''
      = (if str_strip ''Burger - Angus beef patty with cheddar'' = [] then None
         else Some \<lparr>name = str_strip ''Burger - Angus beef patty with cheddar'',
                    price = ''$12.50'', description = str_strip ''served with fries''\<rparr>)"
    by blast
  from r1 s1 s2 have r1': "parse_spenard_menu_item ''Nachos - loaded with cheese$8.00''
     = Some \<lparr>name = ''Nachos'', price = ''$8.00'', description = ''loaded with cheese''\<rparr>"
    by simp
  from r2 s3 s4 have r2':
    "parse_spenard_menu_item ''Burger - Angus beef patty with cheddar$12.50 served with fries''
     = Some \<lparr>name = ''Burger - Angus beef patty with cheddar'', price = ''$12.50'',
             description = ''served with fries''\<rparr>"
    by simp
  from f1 o1 r1' f2 r2' show ?thesis by (intro conjI)
qed

text \<open>
  The description of the first step is the text up to the next occurrence of the price
  string, not all the text after the price: below, \<open>$8\<close> occurs again inside \<open>$80\<close>, the
  description found is empty although text follows the first price, and the name is
  split.
\<close>

lemma spenard_split_at_repeated_price:
  "spenard_fields ''Wine - by the glass $8 - $80''
     = Some (''$8'', ''Wine - by the glass'', []) \<and>
   parse_spenard_menu_item ''Wine - by the glass $8 - $80''
     = Some \<lparr>name = ''Wine'', price = ''$8'', description = ''by the glass''\<rparr>"
  by code_simp

text \<open>
  C4. The generic text parser never splits the name again. On the specification's own
  example, where nothing follows the price and the name has \<open>' - '\<close> in it,
  \<open>parse_menu_text\<close> keeps the whole text before the price as the name and leaves the
  description empty, and \<open>extract_menu_items\<close> returns that record. The parser for
  Spenard Roadhouse, on the same text, gives the name \<open>Nachos\<close> and the description
  \<open>loaded with cheese\<close>.
\<close>

theorem generic_text_parser_does_not_resplit:
  "parse_menu_text ''Nachos - loaded with cheese$8.00''
     = Some \<lparr>name = ''Nachos - loaded with cheese'', price = ''$8.00'', description = []\<rparr> \<and>
   extract_menu_items nachos_page ''Moose Tooth''
     = [\<lparr>name = ''Nachos - loaded with cheese'', price = ''$8.00'', description = []\<rparr>] \<and>
   parse_spenard_menu_item ''Nachos - loaded with cheese$8.00''
     = Some \<lparr>name = ''Nachos'', price = ''$8.00'', description = ''loaded with cheese''\<rparr>"
  by code_simp

end
